theory Spec2Isabelle
  imports Main "HOL-Library.AList"
begin

section \<open>JavaScript values\<close>

text \<open>
  The values the mapper, the HTTP client and the store handle are JSON data plus
  \<open>undefined\<close> and function values (a mapping rule may carry a \<open>transform\<close>
  function). A function value is identified by its source text, which is what
  \<open>String(f)\<close> yields; what calling it does is given by an interpreter \<open>call\<close>
  that the operations below take as a parameter. Numbers are the integers a JavaScript
  number holds exactly and prints digit by digit, those of magnitude below \<open>2\<^sup>5\<^sup>3\<close>
  (fractions, NaN and the exponent notation of large numbers are left out). An object
  is the list of its own enumerable properties, each name once, as \<open>JSON.parse\<close> and
  object literals create them and in the order in which the runtime enumerates them. Members inherited from the runtime's prototypes
  (\<open>toString\<close>, \<open>constructor\<close>, the array methods) are not part of the data: reading them
  is not modelled.
\<close>

datatype js =
    Undefined
  | Null
  | Bool bool
  | Num int
  | Str string
  | Arr "js list"
  | Obj "(string \<times> js) list"
  | Fn string

text \<open>A thrown \<open>Error\<close>: its \<open>name\<close>, its \<open>message\<close>, and the \<open>status\<close> and
  \<open>body\<close> that \<open>HttpClient.request\<close> attaches to an HTTP failure.\<close>

datatype error = Error (name: string) (message: string) (err_status: "nat option") (err_body: js)

definition TypeError :: "string \<Rightarrow> error" where
  "TypeError msg = Error ''TypeError'' msg None Undefined"

fun truthy :: "js \<Rightarrow> bool" where
  "truthy Undefined = False"
| "truthy Null = False"
| "truthy (Bool b) = b"
| "truthy (Num n) = (n \<noteq> 0)"
| "truthy (Str s) = (s \<noteq> [])"
| "truthy (Arr xs) = True"
| "truthy (Obj kvs) = True"
| "truthy (Fn f) = True"

fun typeof :: "js \<Rightarrow> string" where
  "typeof Undefined = ''undefined''"
| "typeof Null = ''object''"
| "typeof (Bool b) = ''boolean''"
| "typeof (Num n) = ''number''"
| "typeof (Str s) = ''string''"
| "typeof (Arr xs) = ''object''"
| "typeof (Obj kvs) = ''object''"
| "typeof (Fn f) = ''function''"

fun isArray :: "js \<Rightarrow> bool" where
  "isArray (Arr xs) = True"
| "isArray v = False"

fun nullish :: "js \<Rightarrow> bool" where
  "nullish Undefined = True"
| "nullish Null = True"
| "nullish v = False"

text \<open>\<open>a ?? b\<close>\<close>

definition coalesce :: "js \<Rightarrow> js \<Rightarrow> js" where
  "coalesce a b = (if nullish a then b else a)"

subsection \<open>Numbers and values as strings\<close>

fun string_of_nat :: "nat \<Rightarrow> string" where
  "string_of_nat n =
     (if n < 10 then [char_of (48 + n)]
      else string_of_nat (n div 10) @ [char_of (48 + n mod 10)])"

declare string_of_nat.simps [simp del]

text \<open>A property name is an array index when it is the decimal form, without leading
  zeros, of a number below \<open>2\<^sup>3\<^sup>2 - 1\<close>, which is \<open>4294967295\<close>. Two such names compare
  as their numbers do: by length, and digit by digit when the lengths agree.\<close>

definition is_digit :: "char \<Rightarrow> bool" where
  "is_digit c = (c \<in> set ''0123456789'')"

fun lex_less :: "string \<Rightarrow> string \<Rightarrow> bool" where
  "lex_less [] ys = (ys \<noteq> [])"
| "lex_less (x # xs) [] = False"
| "lex_less (x # xs) (y # ys) = ((of_char x :: nat) < of_char y \<or> (x = y \<and> lex_less xs ys))"

definition index_less :: "string \<Rightarrow> string \<Rightarrow> bool" where
  "index_less a b = (length a < length b \<or> (length a = length b \<and> lex_less a b))"

definition is_index :: "string \<Rightarrow> bool" where
  "is_index k =
     (k \<noteq> [] \<and> list_all is_digit k \<and> (length k = 1 \<or> hd k \<noteq> CHR ''0'')
      \<and> index_less k ''4294967295'')"

definition string_of_int :: "int \<Rightarrow> string" where
  "string_of_int i = (if i < 0 then CHR ''-'' # string_of_nat (nat (- i)) else string_of_nat (nat i))"

fun join :: "string \<Rightarrow> string list \<Rightarrow> string" where
  "join sep [] = []"
| "join sep [x] = x"
| "join sep (x # y # ys) = x @ sep @ join sep (y # ys)"

text \<open>\<open>String(v)\<close>, which is also how a value used as a property key is converted.\<close>

fun to_string :: "js \<Rightarrow> string" where
  "to_string Undefined = ''undefined''"
| "to_string Null = ''null''"
| "to_string (Bool b) = (if b then ''true'' else ''false'')"
| "to_string (Num n) = string_of_int n"
| "to_string (Str s) = s"
| "to_string (Arr xs) = join '','' (map (\<lambda>x. if nullish x then [] else to_string x) xs)"
| "to_string (Obj kvs) = ''[object Object]''"
| "to_string (Fn f) = f"

subsection \<open>Properties\<close>

text \<open>\<open>Object.entries(v)\<close>: the own enumerable properties. An array has its indices,
  a string its characters by index; other primitives have none.\<close>

fun entries :: "js \<Rightarrow> (string \<times> js) list" where
  "entries (Obj kvs) = kvs"
| "entries (Arr xs) = zip (map string_of_nat [0..<length xs]) xs"
| "entries (Str s) = zip (map string_of_nat [0..<length s]) (map (\<lambda>c. Str [c]) s)"
| "entries v = []"

definition keys :: "js \<Rightarrow> string list" where
  "keys v = map fst (entries v)"

text \<open>The \<open>length\<close> of an array or a string is an own property that is not enumerable.\<close>

fun length_prop :: "js \<Rightarrow> js option" where
  "length_prop (Arr xs) = Some (Num (int (length xs)))"
| "length_prop (Str s) = Some (Num (int (length s)))"
| "length_prop v = None"

text \<open>\<open>k in v\<close>, for \<open>v\<close> an object or an array, as far as the properties of \<open>v\<close> itself
  decide it (inherited members are left out, see above).\<close>

definition has_prop :: "string \<Rightarrow> js \<Rightarrow> bool" where
  "has_prop k v = (map_of (entries v) k \<noteq> None \<or> (k = ''length'' \<and> length_prop v \<noteq> None))"

text \<open>\<open>v[k]\<close>, for \<open>v\<close> neither \<open>null\<close> nor \<open>undefined\<close>: a name that is not a property
  of \<open>v\<close> itself reads as \<open>undefined\<close> (inherited members are left out, see above).\<close>

definition get_prop :: "js \<Rightarrow> string \<Rightarrow> js" where
  "get_prop v k =
     (case map_of (entries v) k of
        Some x \<Rightarrow> x
      | None \<Rightarrow> (if k = ''length'' then (case length_prop v of Some n \<Rightarrow> n | None \<Rightarrow> Undefined)
                 else Undefined))"

text \<open>A new property takes its place in the enumeration of the object: array indices
  come first, in ascending order, the other names follow in the order of their
  creation.\<close>

fun insert_prop :: "string \<Rightarrow> js \<Rightarrow> (string \<times> js) list \<Rightarrow> (string \<times> js) list" where
  "insert_prop k v [] = [(k, v)]"
| "insert_prop k v ((k', v') # kvs) =
     (if is_index k then
        (if is_index k' \<and> index_less k' k then (k', v') # insert_prop k v kvs
         else (k, v) # (k', v') # kvs)
      else (k', v') # insert_prop k v kvs)"

text \<open>A property written by an object literal, by a spread or by \<open>Object.fromEntries\<close>:
  an existing property is overwritten in place, a new one is inserted.\<close>

definition set_prop :: "string \<Rightarrow> js \<Rightarrow> (string \<times> js) list \<Rightarrow> (string \<times> js) list" where
  "set_prop k v kvs =
     (if k \<in> set (map fst kvs) then AList.update k v kvs else insert_prop k v kvs)"

text \<open>The assignment \<open>o[k] = v\<close> to an object that was created as \<open>{}\<close> writes the
  property in the same way, but for the name \<open>__proto__\<close>: that assignment calls the
  setter inherited from \<open>Object.prototype\<close>, which creates no property of the object
  (it replaces the prototype if \<open>v\<close> is an object or \<open>null\<close>; what a replaced prototype
  does to later operations is not modelled).\<close>

definition assign_prop :: "string \<Rightarrow> js \<Rightarrow> (string \<times> js) list \<Rightarrow> (string \<times> js) list" where
  "assign_prop k v kvs = (if k = ''__proto__'' then kvs else set_prop k v kvs)"

text \<open>\<open>{...a, ...b}\<close> continued from the properties already written: each own enumerable
  property of the spread value is assigned in order.\<close>

definition spread :: "js \<Rightarrow> (string \<times> js) list \<Rightarrow> (string \<times> js) list" where
  "spread v kvs = fold (\<lambda>(k, x). set_prop k x) (entries v) kvs"

subsection \<open>Strings\<close>

definition startsWith :: "string \<Rightarrow> string \<Rightarrow> bool" where
  "startsWith s p = (take (length p) s = p)"

text \<open>\<open>s.split(c)\<close> for a one-character separator: the empty string splits into one
  empty piece.\<close>

fun split :: "char \<Rightarrow> string \<Rightarrow> string list" where
  "split c [] = [[]]"
| "split c (x # xs) =
     (if x = c then [] # split c xs
      else (case split c xs of [] \<Rightarrow> [[x]] | w # ws \<Rightarrow> (x # w) # ws))"

section \<open>DataMapper (backend/lib/dataMapper.js)\<close>

text \<open>Class \<open>DataMapper\<close>, lines 2 to 43 of the file. First the loop of \<open>getValueByPath\<close>
  over the keys of the path.\<close>

fun walk :: "js \<Rightarrow> string list \<Rightarrow> js" where
  "walk cur [] = cur"
| "walk cur (k # ks) =
     (if truthy cur \<and> typeof cur = ''object'' \<and> has_prop k cur then walk (get_prop cur k) ks
      else Undefined)"

definition path_keys :: "string \<Rightarrow> string list" where
  "path_keys path = filter (\<lambda>k. k \<noteq> []) (split CHR ''.'' (drop 2 path))"

definition getValueByPath :: "js \<Rightarrow> js \<Rightarrow> js" where
  "getValueByPath obj path =
     (if \<not> truthy path \<or> typeof path \<noteq> ''string'' then Undefined
      else (case path of
              Str p \<Rightarrow> (if \<not> startsWith p ''$.'' then path else walk obj (path_keys p))
            | _ \<Rightarrow> Undefined))"

text \<open>The loop of \<open>transformAdvanced\<close>; \<open>result\<close> is the object built so far.\<close>

fun transformAdvanced_loop ::
  "(string \<Rightarrow> js \<Rightarrow> error + js) \<Rightarrow> js \<Rightarrow> (string \<times> js) list \<Rightarrow> js list \<Rightarrow> error + js" where
  "transformAdvanced_loop call sourceData result [] = Inr (Obj result)"
| "transformAdvanced_loop call sourceData result (rule # rules) =
     (if nullish rule then
        Inl (TypeError (''Cannot read properties of '' @ to_string rule @ '' (reading 'sourcePath')''))
      else
        let srcPath = coalesce (get_prop rule ''sourcePath'') (get_prop rule ''source'');
            destField = coalesce (get_prop rule ''destField'') (get_prop rule ''dest'');
            value = getValueByPath sourceData srcPath;
            tf = get_prop rule ''transform''
        in if truthy tf then
             (case tf of
                Fn f \<Rightarrow>
                  (case call f value of
                     Inl e \<Rightarrow> Inl e
                   | Inr v \<Rightarrow>
                       transformAdvanced_loop call sourceData (assign_prop (to_string destField) v result) rules)
              | _ \<Rightarrow> Inl (TypeError ''rule.transform is not a function''))
           else transformAdvanced_loop call sourceData (assign_prop (to_string destField) value result) rules)"

definition transformAdvanced ::
  "(string \<Rightarrow> js \<Rightarrow> error + js) \<Rightarrow> js \<Rightarrow> js list \<Rightarrow> error + js" where
  "transformAdvanced call sourceData mappingRules = transformAdvanced_loop call sourceData [] mappingRules"

text \<open>The elements an array is iterated over by \<open>for ... of\<close>.\<close>

fun elements :: "js \<Rightarrow> js list" where
  "elements (Arr xs) = xs"
| "elements v = []"

definition transform :: "(string \<Rightarrow> js \<Rightarrow> error + js) \<Rightarrow> js \<Rightarrow> js \<Rightarrow> error + js" where
  "transform call sourceData mapping =
     (if \<not> truthy mapping then Inr sourceData
      else if \<not> isArray mapping \<and> typeof mapping = ''object'' then
        (if length (keys mapping) = 0 then Inr sourceData
         else Inr (Obj (fold (\<lambda>(destField, sourcePath). assign_prop destField (getValueByPath sourceData sourcePath))
                          (entries mapping) [])))
      else if isArray mapping then transformAdvanced call sourceData (elements mapping)
      else Inr sourceData)"

section \<open>DataMapper (merged_http2/dataMapper.js)\<close>

text \<open>The second copy of the mapper has no guard on the path and no rule-list branch in
  \<open>transform\<close>. Calling \<open>startsWith\<close> on a path that is not a string throws.\<close>

fun replace_first :: "string \<Rightarrow> string \<Rightarrow> string \<Rightarrow> string" where
  "replace_first pat rep [] = (if pat = [] then rep else [])"
| "replace_first pat rep (x # xs) =
     (if startsWith (x # xs) pat then rep @ drop (length pat) (x # xs)
      else x # replace_first pat rep xs)"

fun walk_merged :: "js \<Rightarrow> string list \<Rightarrow> js" where
  "walk_merged v [] = v"
| "walk_merged v (key # ks) =
     (if truthy v \<and> typeof v = ''object'' then walk_merged (get_prop v key) ks else Undefined)"

definition getValueByPath_merged :: "js \<Rightarrow> js \<Rightarrow> error + js" where
  "getValueByPath_merged obj path =
     (case path of
        Str p \<Rightarrow>
          (if \<not> startsWith p ''$.'' then Inr path
           else Inr (walk_merged obj
                  (filter (\<lambda>k. length k > 0) (split CHR ''.'' (replace_first ''$.'' [] p)))))
      | _ \<Rightarrow>
          (if nullish path then
             Inl (TypeError (''Cannot read properties of '' @ to_string path @ '' (reading 'startsWith')''))
           else Inl (TypeError ''path.startsWith is not a function'')))"

fun transform_merged_loop ::
  "js \<Rightarrow> (string \<times> js) list \<Rightarrow> (string \<times> js) list \<Rightarrow> error + js" where
  "transform_merged_loop sourceData result [] = Inr (Obj result)"
| "transform_merged_loop sourceData result ((destField, sourcePath) # rest) =
     (case getValueByPath_merged sourceData sourcePath of
        Inl e \<Rightarrow> Inl e
      | Inr v \<Rightarrow> transform_merged_loop sourceData (assign_prop destField v result) rest)"

definition transform_merged :: "js \<Rightarrow> js \<Rightarrow> error + js" where
  "transform_merged sourceData mapping =
     (if \<not> truthy mapping \<or> length (keys mapping) = 0 then Inr sourceData
      else transform_merged_loop sourceData [] (entries mapping))"

section \<open>The environment\<close>

text \<open>
  What the runtime and the network do is a parameter of every operation below:
  \<^item> \<open>call f v\<close> applies the function value \<open>f\<close> to \<open>v\<close> and returns or throws;
  \<^item> \<open>stringify\<close> is \<open>JSON.stringify\<close>;
  \<^item> \<open>fetch n url opts\<close> is the outcome of the \<open>n\<close>-th call of the runtime's built-in
    \<open>fetch\<close> in a run, a response or a rejection;
  \<^item> \<open>now_ms n\<close> and \<open>now_iso n\<close> are what the clock returns as \<open>Date.now()\<close> and as
    \<open>new Date().toISOString()\<close> when it is read at step \<open>n\<close> of the run.
\<close>

text \<open>The built-in \<open>fetch\<close> rejects with a \<open>TypeError\<close> when the request cannot be made (the
  host is unreachable, the url is invalid) and with an \<open>AbortError\<close> when its signal is
  aborted, as the timeouts of the client do. The error it rejects with always has a
  message; the type says so by giving the message as its first character and the
  rest.\<close>

datatype rejection = Rejection (rej_name: string) (rej_first: char) (rej_rest: string)

definition thrown :: "rejection \<Rightarrow> error" where
  "thrown r = Error (rej_name r) (rej_first r # rej_rest r) None Undefined"

record response =
  ok :: bool
  status :: nat
  statusText :: string
  res_headers :: "(string \<times> string) list"
  res_json :: "error + js"
  res_text :: "error + string"

record env =
  call :: "string \<Rightarrow> js \<Rightarrow> error + js"
  stringify :: "js \<Rightarrow> js"
  fetch :: "nat \<Rightarrow> js \<Rightarrow> js \<Rightarrow> rejection + response"
  now_ms :: "nat \<Rightarrow> int"
  now_iso :: "nat \<Rightarrow> string"

text \<open>The effects on the outside world: the calls of \<open>fetch\<close> issued so far, with their
  url and options, and the number of steps taken. Every call of \<open>fetch\<close> and every
  reading of the clock is a step, so a reading taken after a request has a later step
  than one taken before it.\<close>

record io =
  calls :: "(js \<times> js) list"
  ticks :: nat

definition do_fetch :: "env \<Rightarrow> js \<Rightarrow> js \<Rightarrow> 'a io_scheme \<Rightarrow> (rejection + response) \<times> 'a io_scheme" where
  "do_fetch env url opts s =
     (fetch env (length (calls s)) url opts,
      s\<lparr>calls := calls s @ [(url, opts)], ticks := Suc (ticks s)\<rparr>)"

definition date_now :: "env \<Rightarrow> 'a io_scheme \<Rightarrow> int \<times> 'a io_scheme" where
  "date_now env s = (now_ms env (ticks s), s\<lparr>ticks := Suc (ticks s)\<rparr>)"

definition date_iso :: "env \<Rightarrow> 'a io_scheme \<Rightarrow> string \<times> 'a io_scheme" where
  "date_iso env s = (now_iso env (ticks s), s\<lparr>ticks := Suc (ticks s)\<rparr>)"

text \<open>The method \<open>fetch\<close> uses for the given options: \<open>GET\<close> when none is named.\<close>

definition fetch_method :: "js \<Rightarrow> string" where
  "fetch_method opts =
     (case map_of (entries opts) ''method'' of None \<Rightarrow> ''GET'' | Some m \<Rightarrow> to_string m)"

section \<open>HttpClient (backend/lib/httpClient.js)\<close>

text \<open>Class \<open>HttpClient\<close>; its source follows the mapper in backend/lib/dataMapper.js
  (lines 63 to 97).\<close>

text \<open>A destructured parameter with a default: the default replaces \<open>undefined\<close> only.\<close>

definition or_default :: "js \<Rightarrow> js \<Rightarrow> js" where
  "or_default v d = (if v = Undefined then d else v)"

text \<open>\<open>s.includes(p)\<close>\<close>

fun str_includes :: "string \<Rightarrow> string \<Rightarrow> bool" where
  "str_includes [] p = (p = [])"
| "str_includes (x # xs) p = (startsWith (x # xs) p \<or> str_includes xs p)"

text \<open>The options \<open>request\<close> passes to \<open>fetch\<close> (the abort signal is left out: an abort is
  one of the outcomes of \<open>fetch\<close>).\<close>

definition request_opts :: "env \<Rightarrow> js \<Rightarrow> js" where
  "request_opts env spec =
     (let method = or_default (get_prop spec ''method'') (Str ''GET'');
          headers = or_default (get_prop spec ''headers'') (Obj []);
          data = or_default (get_prop spec ''data'') Null;
          opts = [(''method'', method),
                  (''headers'', Obj (spread headers [(''Content-Type'', Str ''application/json'')]))]
      in if truthy data \<and> method \<in> set [Str ''POST'', Str ''PUT'', Str ''PATCH'', Str ''DELETE'']
         then Obj (set_prop ''body'' (stringify env data) opts)
         else Obj opts)"

text \<open>The \<open>catch\<close> of \<open>request\<close>: an abort becomes a timeout error, anything else is
  thrown on.\<close>

definition rethrow :: "error \<Rightarrow> error" where
  "rethrow e = (if name e = ''AbortError'' then Error ''Error'' ''Request timeout'' None Undefined else e)"

definition request :: "env \<Rightarrow> js \<Rightarrow> 'a io_scheme \<Rightarrow> (error + js) \<times> 'a io_scheme" where
  "request env spec s =
     (let (outcome, s1) = do_fetch env (get_prop spec ''url'') (request_opts env spec) s
      in case outcome of
           Inl rejected \<Rightarrow> (Inl (rethrow (thrown rejected)), s1)
         | Inr res \<Rightarrow>
             (let ct = (case map_of (res_headers res) ''content-type'' of None \<Rightarrow> [] | Some c \<Rightarrow> c);
                  parsed = (if str_includes ct ''application/json'' then res_json res
                            else (case res_text res of Inl e \<Rightarrow> Inl e | Inr t \<Rightarrow> Inr (Str t)))
              in case parsed of
                   Inl e \<Rightarrow> (Inl (rethrow e), s1)
                 | Inr body \<Rightarrow>
                     (if \<not> ok res then
                        (Inl (rethrow (Error ''Error''
                                (''HTTP '' @ string_of_nat (status res) @ '' '' @ statusText res)
                                (Some (status res)) body)), s1)
                      else
                        (Inr (Obj [(''status'', Num (int (status res))),
                                   (''headers'', Obj (fold (\<lambda>(k, v). set_prop k (Str v)) (res_headers res) [])),
                                   (''body'', body)]), s1))))"


section \<open>The in-memory store (backend/lib/storage.js)\<close>

text \<open>\<open>storage.connections\<close> maps an id to a connection object, given by its properties;
  \<open>storage.logs\<close> holds the newest entry first. Ids are primitive values (a \<open>Map\<close>
  compares object keys by identity, which is not modelled).\<close>

record state = io +
  connections :: "(js \<times> (string \<times> js) list) list"
  logs :: "js list"

definition getConnection :: "js \<Rightarrow> state \<Rightarrow> (string \<times> js) list option" where
  "getConnection i s = map_of (connections s) i"

definition updateConnection :: "js \<Rightarrow> js \<Rightarrow> state \<Rightarrow> js \<times> state" where
  "updateConnection i patch s =
     (case map_of (connections s) i of
        None \<Rightarrow> (Bool False, s)
      | Some existing \<Rightarrow>
          (let updated = spread patch (spread (Obj existing) [])
           in (Obj updated, s\<lparr>connections := AList.update i updated (connections s)\<rparr>)))"

definition logEvent :: "env \<Rightarrow> js \<Rightarrow> state \<Rightarrow> state" where
  "logEvent env entry s =
     (let (timestamp, s1) = date_iso env s;
          withMeta = Obj (spread entry [(''timestamp'', Str timestamp)]);
          unshifted = withMeta # logs s1
      in s1\<lparr>logs := (if length unshifted > 500 then take 500 unshifted else unshifted)\<rparr>)"

section \<open>The execute handler (backend/api/connections-[id]-execute.js)\<close>

text \<open>An incoming request, as far as the handler reads it: its method, the id that the
  pattern \<open>connections/(.+?)/execute\<close> captures in the url (\<open>undefined\<close> without a
  match), and what \<open>JSON.parse\<close> makes of the body, a value or a thrown error.\<close>

record incoming =
  in_method :: js
  in_id :: js
  in_body :: "error + js"

text \<open>What the handler writes to \<open>res\<close>: the status code, the headers set, and the
  argument of \<open>res.end\<close> (\<open>undefined\<close> when it is called without one).\<close>

record reply =
  statusCode :: nat
  headers :: "(string \<times> string) list"
  sent :: js

definition validateExecutePayload :: "js \<Rightarrow> string list" where
  "validateExecutePayload payload =
     (if \<not> truthy payload then [''Payload required'']
      else (if \<not> truthy (get_prop payload ''connectionId'') then [''connectionId required''] else [])
         @ (if \<not> isArray (get_prop payload ''records'') then [''records must be an array''] else []))"

text \<open>\<open>a || b\<close>\<close>

definition or_else :: "js \<Rightarrow> js \<Rightarrow> js" where
  "or_else a b = (if truthy a then a else b)"

definition json_reply :: "env \<Rightarrow> nat \<Rightarrow> js \<Rightarrow> reply" where
  "json_reply env code v =
     \<lparr>statusCode = code, headers = [(''Content-Type'', ''application/json'')], sent = stringify env v\<rparr>"

text \<open>The \<open>for\<close> loop over \<open>body.records\<close>. A throw of \<open>transform\<close> or of \<open>request\<close>
  leaves the loop; the log entries written before it stay.\<close>

fun execute_records ::
  "env \<Rightarrow> (string \<times> js) list \<Rightarrow> js \<Rightarrow> js list \<Rightarrow> js list \<Rightarrow> state \<Rightarrow> (error + js list) \<times> state" where
  "execute_records env conn i results [] s = (Inr results, s)"
| "execute_records env conn i results (record # records) s =
     (case transform (call env) record (or_else (get_prop (Obj conn) ''mappings'') (Obj [])) of
        Inl e \<Rightarrow> (Inl e, s)
      | Inr mapped \<Rightarrow>
          (case request env (Obj [(''url'', get_prop (Obj conn) ''destinationUrl''),
                                  (''method'', or_else (get_prop (Obj conn) ''method'') (Str ''POST'')),
                                  (''data'', mapped)]) s of
             (Inl e, s1) \<Rightarrow> (Inl e, s1)
           | (Inr out, s1) \<Rightarrow>
               execute_records env conn i
                 (results @ [Obj [(''input'', record), (''mapped'', mapped),
                                  (''responseStatus'', get_prop out ''status''),
                                  (''responseBody'', get_prop out ''body'')]])
                 records
                 (logEvent env (Obj [(''event'', Str ''execute''), (''connectionId'', i),
                                     (''status'', get_prop out ''status''), (''mapped'', mapped)]) s1)))"

definition handler :: "env \<Rightarrow> incoming \<Rightarrow> state \<Rightarrow> reply \<times> state" where
  "handler env req s =
     (if or_else (in_method req) (Str ''GET'') \<noteq> Str ''POST'' then
        (\<lparr>statusCode = 405, headers = [(''Allow'', ''POST'')], sent = Undefined\<rparr>, s)
      else
        (case getConnection (in_id req) s of
           None \<Rightarrow> (json_reply env 404 (Obj [(''error'', Str ''Connection not found'')]), s)
         | Some conn \<Rightarrow>
             (case in_body req of
                Inl e \<Rightarrow> (json_reply env 500 (Obj [(''error'', Str (message e))]), s)
              | Inr body \<Rightarrow>
                  (let errors = validateExecutePayload (Obj (set_prop ''connectionId'' (in_id req) (spread body [])))
                   in if length errors \<noteq> 0 then
                        (json_reply env 400 (Obj [(''errors'', Arr (map Str errors))]), s)
                      else
                        (case execute_records env conn (in_id req) [] (elements (get_prop body ''records'')) s of
                           (Inl e, s1) \<Rightarrow> (json_reply env 500 (Obj [(''error'', Str (message e))]), s1)
                         | (Inr results, s1) \<Rightarrow>
                             (json_reply env 200
                                (Obj [(''ok'', Bool True), (''count'', Num (int (length results))),
                                      (''results'', Arr results)]), s1))))))"

section \<open>The SQL-backed execute route (POST /api/connections/:id/execute)\<close>

text \<open>The route \<open>app.post('/api/connections/:id/execute')\<close> of the server in part\_004
  (lines 123 to 211) and its helper \<open>getNestedValue\<close>.\<close>

text \<open>The two tables, with the columns the route reads and writes. \<open>source_headers\<close>,
  \<open>dest_headers\<close> and \<open>mapping_rules\<close> are JSONB columns; a missing \<open>mapping_rules\<close> is
  the SQL null. The counters are SQL integers: an update past \<open>2147483647\<close> is refused by
  the database and surfaces as a thrown error. The database itself is taken to be
  reachable.\<close>

record conn_row =
  conn_id :: string
  conn_name :: string
  source_url :: string
  source_method :: string
  source_headers :: js
  dest_url :: string
  dest_method :: string
  dest_headers :: js
  mapping_rules :: "js list option"
  last_executed :: "string option"
  execution_count :: int
  success_count :: int
  error_count :: int

record log_row =
  connection_id :: string
  executed_at :: string
  success :: bool
  source_response :: "js option"
  dest_response :: "string option"
  error_message :: "string option"
  execution_time_ms :: int

record db = io +
  conn_rows :: "conn_row list"
  execution_logs :: "log_row list"

text \<open>\<open>getNestedValue\<close>: \<open>path.split('.').reduce((current, key) => current?.[key], obj)\<close>\<close>

definition getNestedValue :: "js \<Rightarrow> js \<Rightarrow> error + js" where
  "getNestedValue obj path =
     (case path of
        Str p \<Rightarrow> Inr (fold (\<lambda>key current. if nullish current then Undefined else get_prop current key)
                       (split CHR ''.'' p) obj)
      | _ \<Rightarrow> (if nullish path then
                Inl (TypeError (''Cannot read properties of '' @ to_string path @ '' (reading 'split')''))
              else Inl (TypeError ''path.split is not a function'')))"

fun apply_rules :: "js \<Rightarrow> (string \<times> js) list \<Rightarrow> js list \<Rightarrow> error + js" where
  "apply_rules sourceData destData [] = Inr (Obj destData)"
| "apply_rules sourceData destData (rule # rules) =
     (if nullish rule then
        Inl (TypeError (''Cannot read properties of '' @ to_string rule @ '' (reading 'source_path')''))
      else if truthy (get_prop rule ''source_path'') \<and> truthy (get_prop rule ''dest_field'') then
        (case getNestedValue sourceData (get_prop rule ''source_path'') of
           Inl e \<Rightarrow> Inl e
         | Inr v \<Rightarrow>
             (if v \<noteq> Undefined
              then apply_rules sourceData (assign_prop (to_string (get_prop rule ''dest_field'')) v destData) rules
              else apply_rules sourceData destData rules))
      else apply_rules sourceData destData rules)"

definition map_source :: "conn_row \<Rightarrow> js \<Rightarrow> error + js" where
  "map_source connection sourceData =
     (case mapping_rules connection of
        None \<Rightarrow> Inr sourceData
      | Some rules \<Rightarrow> (if length rules > 0 then apply_rules sourceData [] rules else Inr sourceData))"

text \<open>The \<open>UPDATE connections SET ... WHERE id = $3\<close> of the route.\<close>

definition update_stats :: "bool \<Rightarrow> string \<Rightarrow> string \<Rightarrow> conn_row \<Rightarrow> conn_row" where
  "update_stats succeeded now i r =
     (if conn_id r = i then
        r\<lparr>execution_count := execution_count r + 1,
          success_count := success_count r + (if succeeded then 1 else 0),
          error_count := error_count r + (if succeeded then 0 else 1),
          last_executed := Some now\<rparr>
      else r)"

definition int_in_range :: "conn_row \<Rightarrow> bool" where
  "int_in_range r =
     (execution_count r \<le> 2147483647 \<and> success_count r \<le> 2147483647 \<and> error_count r \<le> 2147483647)"

text \<open>\<open>res.status(code).json(v)\<close> of the web framework.\<close>

definition express_json :: "env \<Rightarrow> nat \<Rightarrow> js \<Rightarrow> reply" where
  "express_json env code v =
     \<lparr>statusCode = code, headers = [(''Content-Type'', ''application/json; charset=utf-8'')],
      sent = stringify env v\<rparr>"

definition error_reply :: "env \<Rightarrow> string \<Rightarrow> reply" where
  "error_reply env msg = express_json env 500 (Obj [(''error'', Str msg)])"

text \<open>The source answered with a status that is not ok: the failure is logged and the
  route returns.\<close>

definition source_failed :: "env \<Rightarrow> string \<Rightarrow> int \<Rightarrow> response \<Rightarrow> db \<Rightarrow> reply \<times> db" where
  "source_failed env i startTime sourceResponse s =
     (let (finish, s1) = date_now env s;
          (now, s2) = date_iso env s1;
          msg = ''Source request failed: '' @ string_of_nat (status sourceResponse)
      in (error_reply env msg,
          s2\<lparr>execution_logs := execution_logs s2 @
               [\<lparr>connection_id = i, executed_at = now, success = False,
                 source_response = None, dest_response = None,
                 error_message = Some msg, execution_time_ms = finish - startTime\<rparr>]\<rparr>))"

text \<open>The text a destination answered with goes into the JSONB column \<open>dest_response\<close>:
  the database refuses a text that is not JSON, and the \<open>INSERT\<close> throws. The text of
  a response is JSON exactly when \<open>res.json()\<close> would return a value for it.\<close>

definition dest_text :: "response \<Rightarrow> error + string option" where
  "dest_text destResponse =
     (if ok destResponse then
        (case res_text destResponse of
           Inl e \<Rightarrow> Inl e
         | Inr t \<Rightarrow>
             (case res_json destResponse of
                Inl e \<Rightarrow> Inl (Error ''error'' ''invalid input syntax for type json'' None Undefined)
              | Inr v \<Rightarrow> Inr (Some t)))
      else Inr None)"

text \<open>The destination answered: the execution is logged and the statistics of the
  connection are updated.\<close>

definition record_execution :: "env \<Rightarrow> string \<Rightarrow> int \<Rightarrow> js \<Rightarrow> response \<Rightarrow> db \<Rightarrow> reply \<times> db" where
  "record_execution env i startTime sourceData destResponse s =
     (let (finish, s1) = date_now env s;
          executionTime = finish - startTime;
          succeeded = ok destResponse
      in case dest_text destResponse of
           Inl e \<Rightarrow> (error_reply env (message e), s1)
         | Inr dest_response_text \<Rightarrow>
             (let (logged_at, s2) = date_iso env s1;
                  s3 = s2\<lparr>execution_logs := execution_logs s2 @
                         [\<lparr>connection_id = i, executed_at = logged_at, success = succeeded,
                           source_response = Some sourceData, dest_response = dest_response_text,
                           error_message = None, execution_time_ms = executionTime\<rparr>]\<rparr>;
                  (now, s4) = date_iso env s3;
                  updated = map (update_stats succeeded now i) (conn_rows s4)
              in if \<not> list_all int_in_range updated then (error_reply env ''integer out of range'', s4)
                 else
                   (express_json env 200
                      (Obj [(''message'', Str (''Connection executed '' @
                               (if succeeded then ''successfully'' else ''with errors''))),
                            (''execution_time_ms'', Num executionTime),
                            (''success'', Bool succeeded)]),
                    s4\<lparr>conn_rows := updated\<rparr>)))"

text \<open>The source answered ok: its body is parsed and mapped and sent to the
  destination.\<close>

definition forward :: "env \<Rightarrow> string \<Rightarrow> conn_row \<Rightarrow> int \<Rightarrow> response \<Rightarrow> db \<Rightarrow> reply \<times> db" where
  "forward env i connection startTime sourceResponse s =
     (case res_json sourceResponse of
        Inl e \<Rightarrow> (error_reply env (message e), s)
      | Inr sourceData \<Rightarrow>
          (case map_source connection sourceData of
             Inl e \<Rightarrow> (error_reply env (message e), s)
           | Inr destData \<Rightarrow>
               (let destHeaders = Obj (spread (or_else (dest_headers connection) (Obj []))
                                       [(''Content-Type'', Str ''application/json'')]);
                    (dst, s1) = do_fetch env (Str (dest_url connection))
                                  (Obj [(''method'', Str (dest_method connection)),
                                        (''headers'', destHeaders),
                                        (''body'', stringify env destData)]) s
                in case dst of
                     Inl rejected \<Rightarrow> (error_reply env (message (thrown rejected)), s1)
                   | Inr destResponse \<Rightarrow> record_execution env i startTime sourceData destResponse s1)))"

definition execute_route :: "env \<Rightarrow> string \<Rightarrow> db \<Rightarrow> reply \<times> db" where
  "execute_route env i s =
     (case find (\<lambda>r. conn_id r = i) (conn_rows s) of
        None \<Rightarrow> (express_json env 404 (Obj [(''error'', Str ''Connection not found'')]), s)
      | Some connection \<Rightarrow>
          (let (startTime, s1) = date_now env s;
               (src, s2) = do_fetch env (Str (source_url connection))
                             (Obj [(''method'', Str (source_method connection)),
                                   (''headers'', or_else (source_headers connection) (Obj []))]) s1
           in case src of
                Inl rejected \<Rightarrow> (error_reply env (message (thrown rejected)), s2)
              | Inr sourceResponse \<Rightarrow>
                  (if \<not> ok sourceResponse then source_failed env i startTime sourceResponse s2
                   else forward env i connection startTime sourceResponse s2)))"

section \<open>Notions used to state the properties\<close>

text \<open>The number a decimal string stands for.\<close>

definition nat_of_string :: "string \<Rightarrow> nat" where
  "nat_of_string s = fold (\<lambda>c a. 10 * a + (of_char c - 48)) s 0"






subsection \<open>Example environments\<close>

text \<open>A destination that answers with status \<open>c\<close> and a JSON body, and an environment
  around a given \<open>fetch\<close>: no function values, \<open>JSON.stringify\<close> left symbolic as the
  identity, a clock that advances by five milliseconds per step.\<close>

definition answer :: "nat \<Rightarrow> string \<Rightarrow> response" where
  "answer c reason =
     \<lparr>ok = (200 \<le> c \<and> c \<le> 299), status = c, statusText = reason,
      res_headers = [(''content-type'', ''application/json'')],
      res_json = Inr (Obj [(''received'', Bool True)]),
      res_text = Inr (''{'' @ [CHR 0x22] @ ''received'' @ [CHR 0x22] @ '':true}'')\<rparr>"

definition env_with :: "(nat \<Rightarrow> js \<Rightarrow> js \<Rightarrow> rejection + response) \<Rightarrow> env" where
  "env_with f =
     \<lparr>call = (\<lambda>f v. Inl (TypeError ''not a function'')), stringify = (\<lambda>v. v), fetch = f,
      now_ms = (\<lambda>n. 1000 + 5 * int n), now_iso = (\<lambda>n. ''T'' @ string_of_nat n)\<rparr>"

definition unreachable :: "nat \<Rightarrow> js \<Rightarrow> js \<Rightarrow> rejection + response" where
  "unreachable n url opts = Inl (Rejection ''TypeError'' CHR ''f'' ''etch failed'')"

text \<open>A destination that answers every request with 500, and one that does so for the
  second request only.\<close>

definition always_500 :: "nat \<Rightarrow> js \<Rightarrow> js \<Rightarrow> rejection + response" where
  "always_500 n url opts = Inr (answer 500 ''Internal Server Error'')"

definition second_fails :: "nat \<Rightarrow> js \<Rightarrow> js \<Rightarrow> rejection + response" where
  "second_fails n url opts =
     (if n = 1 then Inr (answer 500 ''Internal Server Error'') else Inr (answer 200 ''OK''))"

text \<open>A \<open>POST\<close> to \<open>/api/connections/c1/execute\<close> with the given records.\<close>

definition post_records :: "js list \<Rightarrow> incoming" where
  "post_records rs =
     \<lparr>in_method = Str ''POST'', in_id = Str ''c1'', in_body = Inr (Obj [(''records'', Arr rs)])\<rparr>"

text \<open>A database with one connection that has not been executed yet.\<close>

definition one_row :: db where
  "one_row =
     \<lparr>calls = [], ticks = 0,
      conn_rows =
        [\<lparr>conn_id = ''c1'', conn_name = ''first'', source_url = ''http://s1'', source_method = ''GET'',
          source_headers = Obj [], dest_url = ''http://d1'', dest_method = ''POST'',
          dest_headers = Obj [], mapping_rules = Some [], last_executed = None,
          execution_count = 0, success_count = 0, error_count = 0\<rparr>],
      execution_logs = []\<rparr>"

text \<open>A store with two connections and an empty log, before any call of \<open>fetch\<close>.\<close>

definition two_connections :: state where
  "two_connections =
     \<lparr>calls = [], ticks = 0,
      connections =
        [(Str ''c1'', [(''id'', Str ''c1''), (''name'', Str ''first''), (''destinationUrl'', Str ''http://d1'')]),
         (Str ''c2'', [(''id'', Str ''c2''), (''name'', Str ''second''), (''destinationUrl'', Str ''http://d2'')])],
      logs = []\<rparr>"

section \<open>Properties of the data mapper\<close>

subsection \<open>Decimal strings\<close>

lemma nat_of_string_of_nat: "nat_of_string (string_of_nat n) = n"
proof (induction n rule: string_of_nat.induct)
  case (1 n)
  show ?case
  proof (cases "n < 10")
    case True
    then show ?thesis
      by (subst string_of_nat.simps) (simp add: nat_of_string_def)
  next
    case False
    have m: "(48 + n mod 10) mod 256 = 48 + n mod 10"
    proof -
      have "n mod 10 < 10" by simp
      then show ?thesis by simp
    qed
    from False 1 have "nat_of_string (string_of_nat (n div 10)) = n div 10"
      by simp
    with False m show ?thesis
      by (subst string_of_nat.simps) (simp add: nat_of_string_def)
  qed
qed

lemma string_of_nat_inj: "string_of_nat m = string_of_nat n \<Longrightarrow> m = n"
  by (metis nat_of_string_of_nat)

lemma last_string_of_nat: "last (string_of_nat n) = char_of (48 + n mod 10)"
  by (subst string_of_nat.simps) simp

lemma string_of_nat_not_length: "string_of_nat n \<noteq> ''length''"
proof
  assume a: "string_of_nat n = ''length''"
  have "last (string_of_nat n) = CHR ''h''"
    by (simp add: a)
  then have "char_of (48 + n mod 10) = CHR ''h''"
    by (simp add: last_string_of_nat)
  then have "of_char (char_of (48 + n mod 10) :: char) = (of_char (CHR ''h'') :: nat)"
    by simp
  moreover have "n mod 10 < 10"
    by simp
  ultimately show False
    by simp
qed

subsection \<open>Literals\<close>

text \<open>
  C3, as the code has it. For every value \<open>v\<close> and every string \<open>s\<close> that does not begin
  with \<open>$.\<close>, \<open>getValueByPath v s\<close> returns \<open>s\<close> itself when \<open>s\<close> is not empty; the empty
  string is caught by the guard \<open>!path\<close> and resolves to \<open>undefined\<close>. The copy under
  merged\_http2 has no such guard and returns every such \<open>s\<close>, the empty one too.
\<close>

theorem getValueByPath_literal:
  assumes "\<not> startsWith s ''$.''"
  shows "getValueByPath v (Str s) = (if s = [] then Undefined else Str s)
         \<and> getValueByPath_merged v (Str s) = Inr (Str s)"
  using assms by (simp add: getValueByPath_def getValueByPath_merged_def)

theorem getValueByPath_literal_witness:
  "\<not> startsWith ''literalValue'' ''$.''
   \<and> getValueByPath (Obj [(''a'', Num 1)]) (Str ''literalValue'') = Str ''literalValue''
   \<and> getValueByPath_merged (Obj [(''a'', Num 1)]) (Str ''literalValue'') = Inr (Str ''literalValue'')"
proof -
  have h: "\<not> startsWith ''literalValue'' ''$.''"
    by (simp add: startsWith_def)
  from getValueByPath_literal [OF h, of "Obj [(''a'', Num 1)]"] h show ?thesis
    by simp
qed

text \<open>The empty string does not begin with \<open>$.\<close>, and it is not returned.\<close>

theorem getValueByPath_empty_literal_counterexample:
  "\<not> startsWith [] ''$.'' \<and> getValueByPath (Obj [(''a'', Num 1)]) (Str []) \<noteq> Str []"
  by (simp add: startsWith_def getValueByPath_def)

subsection \<open>Empty and absent mappings\<close>

lemma transform_absent_or_empty_object:
  "transform app x Undefined = Inr x"
  "transform app x Null = Inr x"
  "transform app x (Obj []) = Inr x"
  by (simp_all add: transform_def keys_def)

lemma transform_merged_absent_or_empty:
  "transform_merged x Undefined = Inr x"
  "transform_merged x Null = Inr x"
  "transform_merged x (Obj []) = Inr x"
  "transform_merged x (Arr []) = Inr x"
  by (simp_all add: transform_merged_def keys_def)

text \<open>
  C4 at the empty rule list. With an absent mapping or an empty keyed map \<open>transform\<close>
  returns its source (the two lemmas above), and so does the copy under merged\_http2 for
  the empty rule list. The mapper of the backend sends an empty rule list to
  \<open>transformAdvanced\<close>, which builds a fresh object: the source \<open>{a: 1}\<close> comes back as
  \<open>{}\<close>.
\<close>

theorem transform_empty_rule_list:
  "transform app (Obj [(''a'', Num 1)]) (Arr []) = Inr (Obj [])
   \<and> transform_merged (Obj [(''a'', Num 1)]) (Arr []) = Inr (Obj [(''a'', Num 1)])"
  by (simp add: transform_def transformAdvanced_def transform_merged_def keys_def)

theorem transform_empty_rule_list_witness:
  "transform (\<lambda>f v. Inr v) (Obj [(''a'', Num 1)]) (Arr []) \<noteq> Inr (Obj [(''a'', Num 1)])"
  using transform_empty_rule_list [of "\<lambda>f v. Inr v"] by simp

subsection \<open>Arrays on the path\<close>

lemma walk_Undefined: "walk Undefined ks = Undefined"
  by (cases ks) simp_all

lemma walk_append: "walk obj (ks @ ks') = walk (walk obj ks) ks'"
  by (induction ks arbitrary: obj) (simp_all add: walk_Undefined)

lemma map_of_array_entries:
  "map_of (entries (Arr xs)) (string_of_nat i) = (if i < length xs then Some (xs ! i) else None)"
proof (cases "i < length xs")
  case True
  have d: "distinct (map string_of_nat [0..<length xs])"
    by (simp add: distinct_map inj_on_def) (metis string_of_nat_inj)
  have "map_of (zip (map string_of_nat [0..<length xs]) xs) (map string_of_nat [0..<length xs] ! i)
        = Some (xs ! i)"
    by (rule map_of_zip_nth) (use True d in simp_all)
  with True show ?thesis
    by simp
next
  case False
  have "string_of_nat i \<notin> set (map string_of_nat [0..<length xs])"
    using False by (auto dest: string_of_nat_inj)
  then have "map_of (zip (map string_of_nat [0..<length xs]) xs) (string_of_nat i) = None"
    by (subst map_of_zip_is_None) simp_all
  with False show ?thesis
    by simp
qed

lemma has_prop_array_index: "has_prop (string_of_nat i) (Arr xs) = (i < length xs)"
  unfolding has_prop_def map_of_array_entries by (simp add: string_of_nat_not_length)

lemma get_prop_array_index: "i < length xs \<Longrightarrow> get_prop (Arr xs) (string_of_nat i) = xs ! i"
  unfolding get_prop_def map_of_array_entries by simp

lemma getValueByPath_walk:
  "getValueByPath obj (Str (''$.'' @ p)) = walk obj (filter (\<lambda>k. k \<noteq> []) (split CHR ''.'' p))"
  by (simp add: getValueByPath_def startsWith_def path_keys_def)

lemma getValueByPath_merged_walk:
  "getValueByPath_merged obj (Str (''$.'' @ p)) =
     Inr (walk_merged obj (filter (\<lambda>k. k \<noteq> []) (split CHR ''.'' p)))"
  by (simp add: getValueByPath_merged_def startsWith_def)

lemma walk_merged_Undefined: "walk_merged Undefined ks = Undefined"
  by (cases ks) simp_all

lemma walk_merged_append: "walk_merged obj (ks @ ks') = walk_merged (walk_merged obj ks) ks'"
  by (induction ks arbitrary: obj) (simp_all add: walk_merged_Undefined)

lemma get_prop_array_out_of_range:
  "\<not> i < length xs \<Longrightarrow> get_prop (Arr xs) (string_of_nat i) = Undefined"
  unfolding get_prop_def map_of_array_entries by (simp add: string_of_nat_not_length)

text \<open>
  C8, as the code has it. Path resolution has no syntax of its own for array indices: a
  key is looked up in an array as in any other object. So when the keys \<open>ks\<close> of a path
  lead to an array, a following key that is the decimal form of an index \<open>i\<close> selects the
  element at \<open>i\<close> if the array has one, and the walk goes on from that element with the
  rest of the path; if the index is out of range the result is \<open>undefined\<close>. Both copies
  of the mapper do so.
\<close>

theorem walk_array_index:
  "(walk obj ks = Arr xs \<longrightarrow>
      walk obj (ks @ string_of_nat i # rest) =
        (if i < length xs then walk (xs ! i) rest else Undefined))
   \<and> (walk_merged obj ks = Arr xs \<longrightarrow>
      walk_merged obj (ks @ string_of_nat i # rest) =
        (if i < length xs then walk_merged (xs ! i) rest else Undefined))"
  by (simp add: walk_append walk_merged_append has_prop_array_index get_prop_array_index
        get_prop_array_out_of_range walk_merged_Undefined)

theorem walk_array_index_witness:
  "walk (Obj [(''a'', Arr [Num 7, Num 8])]) [''a'', ''1''] = Num 8
   \<and> walk (Obj [(''a'', Arr [Num 7, Num 8])]) [''a'', ''2''] = Undefined
   \<and> walk_merged (Obj [(''a'', Arr [Num 7, Num 8])]) [''a'', ''1''] = Num 8"
proof -
  let ?o = "Obj [(''a'', Arr [Num 7, Num 8])]"
  have h: "walk ?o [''a''] = Arr [Num 7, Num 8]"
    by code_simp
  have hm: "walk_merged ?o [''a''] = Arr [Num 7, Num 8]"
    by code_simp
  have s1: "[''a''] @ string_of_nat 1 # [] = [''a'', ''1'']"
    by code_simp
  have s2: "[''a''] @ string_of_nat 2 # [] = [''a'', ''2'']"
    by code_simp
  have "walk ?o ([''a''] @ string_of_nat 1 # []) =
        (if 1 < length [Num 7, Num 8] then walk ([Num 7, Num 8] ! 1) [] else Undefined)"
    using walk_array_index [of ?o "[''a'']" "[Num 7, Num 8]" 1 "[]"] h by blast
  also have "\<dots> = Num 8"
    by simp
  finally have r1: "walk ?o [''a'', ''1''] = Num 8"
    unfolding s1 .
  have "walk ?o ([''a''] @ string_of_nat 2 # []) =
        (if 2 < length [Num 7, Num 8] then walk ([Num 7, Num 8] ! 2) [] else Undefined)"
    using walk_array_index [of ?o "[''a'']" "[Num 7, Num 8]" 2 "[]"] h by blast
  also have "\<dots> = Undefined"
    by simp
  finally have r2: "walk ?o [''a'', ''2''] = Undefined"
    unfolding s2 .
  have "walk_merged ?o ([''a''] @ string_of_nat 1 # []) =
        (if 1 < length [Num 7, Num 8] then walk_merged ([Num 7, Num 8] ! 1) [] else Undefined)"
    using walk_array_index [of ?o "[''a'']" "[Num 7, Num 8]" 1 "[]"] hm by blast
  also have "\<dots> = Num 8"
    by simp
  finally have r3: "walk_merged ?o [''a'', ''1''] = Num 8"
    unfolding s1 .
  from r1 r2 r3 show ?thesis
    by (intro conjI)
qed

text \<open>The path \<open>$.a.1\<close> against \<open>{a: [7, 8]}\<close> reaches the array and selects its second
  element, in both copies of the mapper.\<close>

theorem getValueByPath_array_index_counterexample:
  "getValueByPath (Obj [(''a'', Arr [Num 7, Num 8])]) (Str ''$.a.1'') = Num 8
   \<and> getValueByPath_merged (Obj [(''a'', Arr [Num 7, Num 8])]) (Str ''$.a.1'') = Inr (Num 8)"
  by code_simp

subsection \<open>Writing properties\<close>

lemma insert_prop_lookup:
  "k \<notin> set (map fst kvs) \<Longrightarrow>
   map_of (insert_prop k v kvs) x = (if x = k then Some v else map_of kvs x)"
  by (induction kvs) auto

lemma set_prop_lookup: "map_of (set_prop k v kvs) x = (if x = k then Some v else map_of kvs x)"
  by (simp add: set_prop_def update_conv' insert_prop_lookup)

lemma insert_prop_keys: "set (map fst (insert_prop k v kvs)) = insert k (set (map fst kvs))"
proof (induction kvs)
  case Nil
  show ?case
    by simp
next
  case (Cons p kvs)
  obtain k' v' where p: "p = (k', v')"
    by (cases p)
  from Cons.IH show ?case
    unfolding p by (cases "is_index k"; cases "is_index k' \<and> index_less k' k") (simp_all add: insert_commute)
qed


lemma insert_prop_distinct:
  "distinct (map fst kvs) \<Longrightarrow> k \<notin> set (map fst kvs) \<Longrightarrow> distinct (map fst (insert_prop k v kvs))"
proof (induction kvs)
  case Nil
  then show ?case
    by simp
next
  case (Cons p kvs)
  obtain k' v' where p: "p = (k', v')"
    by (cases p)
  from Cons.prems p have "k' \<notin> set (map fst (insert_prop k v kvs))"
    unfolding insert_prop_keys by auto
  with Cons p show ?case
    by auto
qed

lemma set_prop_distinct: "distinct (map fst kvs) \<Longrightarrow> distinct (map fst (set_prop k v kvs))"
  by (simp add: set_prop_def distinct_update insert_prop_distinct)

lemma insert_prop_append: "\<not> is_index k \<Longrightarrow> insert_prop k v kvs = kvs @ [(k, v)]"
  by (induction kvs) auto



subsection \<open>Rule lists\<close>







text \<open>A rule that writes \<open>__proto__\<close> leaves no field in the output, and the runtime
  enumerates a field named by an array index before the others, whatever the order of
  the rules.\<close>

lemma rule_list_proto_setter:
  "transform (\<lambda>f v. Inr v) (Obj [(''a'', Num 1)])
     (Arr [Obj [(''sourcePath'', Str ''$.a''), (''destField'', Str ''__proto__'')]])
   = Inr (Obj [])"
  by code_simp

lemma rule_list_index_first:
  "transform (\<lambda>f v. Inr v) (Obj [(''a'', Num 1), (''c'', Num 3)])
     (Arr [Obj [(''sourcePath'', Str ''$.a''), (''destField'', Str ''b'')],
           Obj [(''sourcePath'', Str ''$.c''), (''destField'', Str ''1'')]])
   = Inr (Obj [(''1'', Num 3), (''b'', Num 1)])"
  by code_simp

section \<open>Properties of the HTTP client\<close>

subsection \<open>The request body\<close>

text \<open>
  C7. Let \<open>opts\<close> be the options \<open>request\<close> hands to \<open>fetch\<close> for a request spec, \<open>method\<close>
  the method of the spec (\<open>GET\<close> when it names none) and \<open>data\<close> its data. If \<open>opts\<close> has a
  body, then the method is one of \<open>POST\<close>, \<open>PUT\<close>, \<open>PATCH\<close>, \<open>DELETE\<close>, data was supplied
  (it is neither \<open>null\<close> nor \<open>undefined\<close>) and the body is \<open>JSON.stringify(data)\<close>. If the
  method sent is \<open>GET\<close> or \<open>HEAD\<close>, \<open>opts\<close> has no body. And a write method with truthy data
  does get the body.
\<close>

theorem request_body_only_for_write_methods:
  fixes env :: env and spec :: js
  defines "opts \<equiv> request_opts env spec"
    and "method \<equiv> or_default (get_prop spec ''method'') (Str ''GET'')"
    and "data \<equiv> or_default (get_prop spec ''data'') Null"
  shows "(has_prop ''body'' opts \<longrightarrow>
            method \<in> {Str ''POST'', Str ''PUT'', Str ''PATCH'', Str ''DELETE''}
            \<and> \<not> nullish data \<and> get_prop opts ''body'' = stringify env data)
         \<and> (fetch_method opts \<in> {''GET'', ''HEAD''} \<longrightarrow> \<not> has_prop ''body'' opts)
         \<and> (method \<in> {Str ''POST'', Str ''PUT'', Str ''PATCH'', Str ''DELETE''} \<and> truthy data
              \<longrightarrow> has_prop ''body'' opts)
         \<and> fetch_method opts = to_string method"
proof -
  have n: "truthy v \<Longrightarrow> \<not> nullish v" for v
    by (cases v) simp_all
  have "\<not> is_index ''body''"
    by (simp add: is_index_def is_digit_def)
  then have b: "set_prop ''body'' v [(''method'', m), (''headers'', h)]
                = [(''method'', m), (''headers'', h), (''body'', v)]" for v m h
    by (simp add: set_prop_def insert_prop_append)
  show ?thesis
    unfolding opts_def method_def data_def
    by (auto simp: request_opts_def Let_def has_prop_def get_prop_def b fetch_method_def
             dest: n)
qed

theorem request_body_only_for_write_methods_witness:
  "get_prop (request_opts (env_with unreachable)
       (Obj [(''url'', Str ''http://d''), (''method'', Str ''POST''), (''data'', Obj [(''a'', Num 1)])]))
     ''body'' = Obj [(''a'', Num 1)]
   \<and> \<not> has_prop ''body'' (request_opts (env_with unreachable)
       (Obj [(''url'', Str ''http://d''), (''method'', Str ''HEAD''), (''data'', Obj [(''a'', Num 1)])]))
   \<and> \<not> has_prop ''body'' (request_opts (env_with unreachable)
       (Obj [(''url'', Str ''http://d''), (''data'', Obj [(''a'', Num 1)])]))"
proof -
  let ?env = "env_with unreachable"
  let ?post = "Obj [(''url'', Str ''http://d''), (''method'', Str ''POST''), (''data'', Obj [(''a'', Num 1)])]"
  let ?head = "Obj [(''url'', Str ''http://d''), (''method'', Str ''HEAD''), (''data'', Obj [(''a'', Num 1)])]"
  let ?get = "Obj [(''url'', Str ''http://d''), (''data'', Obj [(''a'', Num 1)])]"
  have p: "or_default (get_prop ?post ''method'') (Str ''GET'') = Str ''POST''"
          "or_default (get_prop ?post ''data'') Null = Obj [(''a'', Num 1)]"
    by (simp_all add: or_default_def get_prop_def)
  have "has_prop ''body'' (request_opts ?env ?post)"
    using request_body_only_for_write_methods [of ?env ?post] by (simp add: p)
  then have a: "get_prop (request_opts ?env ?post) ''body'' = Obj [(''a'', Num 1)]"
    using request_body_only_for_write_methods [of ?env ?post] by (simp add: p env_with_def)
  have "fetch_method (request_opts ?env ?head) = ''HEAD''"
    using request_body_only_for_write_methods [of ?env ?head] by (simp add: or_default_def get_prop_def)
  then have b: "\<not> has_prop ''body'' (request_opts ?env ?head)"
    using request_body_only_for_write_methods [of ?env ?head] by simp
  have "fetch_method (request_opts ?env ?get) = ''GET''"
    using request_body_only_for_write_methods [of ?env ?get] by (simp add: or_default_def get_prop_def)
  then have c: "\<not> has_prop ''body'' (request_opts ?env ?get)"
    using request_body_only_for_write_methods [of ?env ?get] by simp
  from a b c show ?thesis
    by (intro conjI)
qed

subsection \<open>The health check\<close>



section \<open>Properties of the store\<close>

subsection \<open>Spreading one object over another\<close>

lemma fold_set_prop_lookup:
  "map_of (fold (\<lambda>(k, x). set_prop k x) es acc) k =
     (case map_of (rev es) k of Some x \<Rightarrow> Some x | None \<Rightarrow> map_of acc k)"
proof (induction es arbitrary: acc)
  case Nil
  show ?case
    by simp
next
  case (Cons e es)
  obtain k' x' where e: "e = (k', x')"
    by (cases e)
  have step: "fold (\<lambda>(k, x). set_prop k x) (e # es) acc =
              fold (\<lambda>(k, x). set_prop k x) es (set_prop k' x' acc)"
    by (simp add: e)
  have upd: "map_of (set_prop k' x' acc) k = (if k = k' then Some x' else map_of acc k)"
    by (simp add: set_prop_lookup)
  have "map_of (rev (e # es)) k =
        (case map_of (rev es) k of Some x \<Rightarrow> Some x | None \<Rightarrow> (if k = k' then Some x' else None))"
    by (simp add: e map_add_def split: option.splits)
  then show ?case
    unfolding step Cons.IH upd by (simp split: option.splits)
qed

lemma spread_lookup:
  "map_of (spread v acc) k =
     (case map_of (rev (entries v)) k of Some x \<Rightarrow> Some x | None \<Rightarrow> map_of acc k)"
  by (simp add: spread_def fold_set_prop_lookup)

lemma map_of_rev_None: "(map_of (rev es) k = None) = (k \<notin> set (map fst es))"
  by (simp add: map_of_eq_None_iff)

lemma fold_set_prop_distinct:
  "distinct (map fst acc) \<Longrightarrow> distinct (map fst (fold (\<lambda>(k, x). set_prop k x) es acc))"
proof (induction es arbitrary: acc)
  case Nil
  then show ?case
    by simp
next
  case (Cons e es)
  obtain k' x' where e: "e = (k', x')"
    by (cases e)
  from Cons.prems have "distinct (map fst (set_prop k' x' acc))"
    by (rule set_prop_distinct)
  from Cons.IH [OF this] show ?case
    by (simp add: e)
qed

lemma map_of_rev_distinct: "distinct (map fst kvs) \<Longrightarrow> map_of (rev kvs) = map_of kvs"
proof (induction kvs)
  case Nil
  show ?case
    by simp
next
  case (Cons e kvs)
  then have ih: "map_of (rev kvs) = map_of kvs" and fresh: "map_of kvs (fst e) = None"
    by (simp_all add: map_of_eq_None_iff)
  show ?case
  proof
    fix k
    show "map_of (rev (e # kvs)) k = map_of (e # kvs) k"
      using fresh by (cases e) (auto simp: ih map_add_def split: option.splits)
  qed
qed

lemma spread_object_copy:
  "distinct (map fst kvs) \<Longrightarrow> map_of (spread (Obj kvs) []) = map_of kvs"
proof
  fix k
  assume "distinct (map fst kvs)"
  then have "map_of (rev kvs) k = map_of kvs k"
    by (simp add: map_of_rev_distinct)
  then show "map_of (spread (Obj kvs) []) k = map_of kvs k"
    by (simp add: spread_lookup split: option.splits)
qed

subsection \<open>Updating a connection\<close>

text \<open>
  C9. Let \<open>i\<close> be an id of the store and \<open>existing\<close> its connection, an object (its
  property names are distinct). Then \<open>updateConnection i patch\<close> returns the updated
  connection and stores it under \<open>i\<close>; every field the patch does not name keeps the
  value it had, every field the patch names has the value the patch gives it; every
  other id of the store has the connection it had, the ids and their order are the same,
  and the log is untouched. For an id that is not in the store it returns \<open>false\<close> and
  the store is unchanged.
\<close>

theorem updateConnection_frame:
  "(map_of (connections s) i = Some existing \<and> distinct (map fst existing) \<longrightarrow>
      (\<exists>updated s'. updateConnection i patch s = (Obj updated, s')
         \<and> (\<forall>k. k \<notin> set (keys patch) \<longrightarrow> map_of updated k = map_of existing k)
         \<and> (\<forall>k. k \<in> set (keys patch) \<longrightarrow> map_of updated k = map_of (rev (entries patch)) k)
         \<and> distinct (map fst updated)
         \<and> getConnection i s' = Some updated
         \<and> (\<forall>j. j \<noteq> i \<longrightarrow> getConnection j s' = getConnection j s)
         \<and> map fst (connections s') = map fst (connections s)
         \<and> logs s' = logs s \<and> calls s' = calls s \<and> ticks s' = ticks s))
   \<and> (map_of (connections s) i = None \<longrightarrow> updateConnection i patch s = (Bool False, s))"
proof (intro conjI impI)
  assume a: "map_of (connections s) i = Some existing \<and> distinct (map fst existing)"
  let ?updated = "spread patch (spread (Obj existing) [])"
  let ?s' = "s\<lparr>connections := AList.update i ?updated (connections s)\<rparr>"
  from a have run: "updateConnection i patch s = (Obj ?updated, ?s')"
    by (simp add: updateConnection_def Let_def)
  have unnamed: "\<forall>k. k \<notin> set (keys patch) \<longrightarrow> map_of ?updated k = map_of existing k"
  proof (intro allI impI)
    fix k
    assume "k \<notin> set (keys patch)"
    then have "map_of (rev (entries patch)) k = None"
      by (simp add: map_of_rev_None keys_def)
    then show "map_of ?updated k = map_of existing k"
      using a by (simp add: spread_lookup [of patch] spread_object_copy)
  qed
  have named: "\<forall>k. k \<in> set (keys patch) \<longrightarrow> map_of ?updated k = map_of (rev (entries patch)) k"
  proof (intro allI impI)
    fix k
    assume "k \<in> set (keys patch)"
    then have "map_of (rev (entries patch)) k \<noteq> None"
      by (simp add: map_of_rev_None keys_def)
    then show "map_of ?updated k = map_of (rev (entries patch)) k"
      by (auto simp: spread_lookup [of patch])
  qed
  have dist: "distinct (map fst ?updated)"
    by (simp add: spread_def fold_set_prop_distinct)
  have stored: "getConnection i ?s' = Some ?updated"
    by (simp add: getConnection_def update_conv')
  have others: "\<forall>j. j \<noteq> i \<longrightarrow> getConnection j ?s' = getConnection j s"
    by (simp add: getConnection_def update_conv')
  from a have "i \<in> fst ` set (connections s)"
    by (metis map_of_eq_None_iff option.distinct(1))
  then have ids: "map fst (connections ?s') = map fst (connections s)"
    by (simp add: update_keys)
  from run unnamed named dist stored others ids
  show "\<exists>updated s'. updateConnection i patch s = (Obj updated, s')
         \<and> (\<forall>k. k \<notin> set (keys patch) \<longrightarrow> map_of updated k = map_of existing k)
         \<and> (\<forall>k. k \<in> set (keys patch) \<longrightarrow> map_of updated k = map_of (rev (entries patch)) k)
         \<and> distinct (map fst updated)
         \<and> getConnection i s' = Some updated
         \<and> (\<forall>j. j \<noteq> i \<longrightarrow> getConnection j s' = getConnection j s)
         \<and> map fst (connections s') = map fst (connections s)
         \<and> logs s' = logs s \<and> calls s' = calls s \<and> ticks s' = ticks s"
    by (intro exI [of _ ?updated] exI [of _ ?s']) simp
next
  assume "map_of (connections s) i = None"
  then show "updateConnection i patch s = (Bool False, s)"
    by (simp add: updateConnection_def)
qed

theorem updateConnection_frame_witness:
  "updateConnection (Str ''c1'') (Obj [(''name'', Str ''renamed''), (''enabled'', Bool True)]) two_connections
     = (Obj [(''id'', Str ''c1''), (''name'', Str ''renamed''), (''destinationUrl'', Str ''http://d1''),
             (''enabled'', Bool True)],
        two_connections\<lparr>connections :=
          [(Str ''c1'', [(''id'', Str ''c1''), (''name'', Str ''renamed''),
                         (''destinationUrl'', Str ''http://d1''), (''enabled'', Bool True)]),
           (Str ''c2'', [(''id'', Str ''c2''), (''name'', Str ''second''),
                         (''destinationUrl'', Str ''http://d2'')])]\<rparr>)
   \<and> getConnection (Str ''c2'')
         (snd (updateConnection (Str ''c1'') (Obj [(''name'', Str ''renamed''), (''enabled'', Bool True)])
                 two_connections))
       = getConnection (Str ''c2'') two_connections
   \<and> updateConnection (Str ''c3'') (Obj [(''name'', Str ''renamed'')]) two_connections
       = (Bool False, two_connections)"
proof -
  let ?patch = "Obj [(''name'', Str ''renamed''), (''enabled'', Bool True)]"
  let ?existing = "[(''id'', Str ''c1''), (''name'', Str ''first''), (''destinationUrl'', Str ''http://d1'')]"
  have present: "map_of (connections two_connections) (Str ''c1'') = Some ?existing
                 \<and> distinct (map fst ?existing)"
    by (simp add: two_connections_def)
  have absent: "map_of (connections two_connections) (Str ''c3'') = None"
    by (simp add: two_connections_def)
  from updateConnection_frame [of two_connections "Str ''c1''" ?existing ?patch] present
  obtain updated s' where
    run: "updateConnection (Str ''c1'') ?patch two_connections = (Obj updated, s')"
    and others: "\<forall>j. j \<noteq> Str ''c1'' \<longrightarrow> getConnection j s' = getConnection j two_connections"
    by blast
  have a: "updateConnection (Str ''c1'') ?patch two_connections
     = (Obj [(''id'', Str ''c1''), (''name'', Str ''renamed''), (''destinationUrl'', Str ''http://d1''),
             (''enabled'', Bool True)],
        two_connections\<lparr>connections :=
          [(Str ''c1'', [(''id'', Str ''c1''), (''name'', Str ''renamed''),
                         (''destinationUrl'', Str ''http://d1''), (''enabled'', Bool True)]),
           (Str ''c2'', [(''id'', Str ''c2''), (''name'', Str ''second''),
                         (''destinationUrl'', Str ''http://d2'')])]\<rparr>)"
    by code_simp
  have b: "getConnection (Str ''c2'') (snd (updateConnection (Str ''c1'') ?patch two_connections))
           = getConnection (Str ''c2'') two_connections"
    using others by (simp add: run)
  have c: "updateConnection (Str ''c3'') (Obj [(''name'', Str ''renamed'')]) two_connections
           = (Bool False, two_connections)"
    using updateConnection_frame [of two_connections "Str ''c3''"] absent by blast
  from a b c show ?thesis
    by (intro conjI)
qed

subsection \<open>The log\<close>

text \<open>
  C10. After \<open>logEvent entry\<close> the log is the new entry followed by the first 499 entries
  the log had, in their order; so it holds at most 500 entries, the entry just added is
  at the front, and of the entries stored before only those past the 499 most recent
  ones are dropped. The new entry has every property of \<open>entry\<close> and a \<open>timestamp\<close>: the
  time of the call, unless \<open>entry\<close> brings its own. The connections are untouched.
\<close>

theorem logEvent_keeps_500:
  fixes env :: env and entry :: js and s :: state
  defines "withMeta \<equiv> spread entry [(''timestamp'', Str (now_iso env (ticks s)))]"
  shows "logs (logEvent env entry s) = Obj withMeta # take 499 (logs s)
         \<and> length (logs (logEvent env entry s)) \<le> 500
         \<and> map_of withMeta ''timestamp'' \<noteq> None
         \<and> (''timestamp'' \<notin> set (keys entry) \<longrightarrow>
              map_of withMeta ''timestamp'' = Some (Str (now_iso env (ticks s))))
         \<and> (\<forall>k\<in>set (keys entry). map_of withMeta k = map_of (rev (entries entry)) k)
         \<and> connections (logEvent env entry s) = connections s"
proof -
  have l: "logs (logEvent env entry s) = Obj withMeta # take 499 (logs s)"
    unfolding withMeta_def
    by (simp add: logEvent_def date_iso_def Let_def take_Cons' not_less)
  have n: "length (logs (logEvent env entry s)) \<le> 500"
    unfolding l by simp
  have look: "map_of withMeta k =
        (case map_of (rev (entries entry)) k of
           Some x \<Rightarrow> Some x
         | None \<Rightarrow> (if k = ''timestamp'' then Some (Str (now_iso env (ticks s))) else None))" for k
    unfolding withMeta_def by (auto simp: spread_lookup split: option.splits)
  have t: "map_of withMeta ''timestamp'' \<noteq> None"
    by (simp add: look split: option.splits)
  have t': "''timestamp'' \<notin> set (keys entry) \<longrightarrow>
              map_of withMeta ''timestamp'' = Some (Str (now_iso env (ticks s)))"
  proof
    assume "''timestamp'' \<notin> set (keys entry)"
    then have "map_of (rev (entries entry)) ''timestamp'' = None"
      by (simp add: map_of_rev_None keys_def)
    then show "map_of withMeta ''timestamp'' = Some (Str (now_iso env (ticks s)))"
      by (simp add: look)
  qed
  have e: "\<forall>k\<in>set (keys entry). map_of withMeta k = map_of (rev (entries entry)) k"
  proof
    fix k
    assume "k \<in> set (keys entry)"
    then have "map_of (rev (entries entry)) k \<noteq> None"
      by (simp add: map_of_rev_None keys_def)
    then show "map_of withMeta k = map_of (rev (entries entry)) k"
      by (auto simp: look)
  qed
  have c: "connections (logEvent env entry s) = connections s"
    by (simp add: logEvent_def date_iso_def Let_def)
  from l n t t' e c show ?thesis
    by (intro conjI)
qed

theorem logEvent_keeps_500_witness:
  "logs (logEvent (env_with unreachable) (Obj [(''event'', Str ''execute''), (''status'', Num 200)])
          (two_connections\<lparr>logs := replicate 500 (Obj [(''event'', Str ''old'')])\<rparr>))
   = Obj [(''timestamp'', Str ''T0''), (''event'', Str ''execute''), (''status'', Num 200)]
     # replicate 499 (Obj [(''event'', Str ''old'')])"
proof -
  let ?s = "two_connections\<lparr>logs := replicate 500 (Obj [(''event'', Str ''old'')])\<rparr>"
  let ?entry = "Obj [(''event'', Str ''execute''), (''status'', Num 200)]"
  have t: "now_iso (env_with unreachable) (ticks ?s) = ''T0''"
    by (simp add: env_with_def two_connections_def) code_simp
  have "logs (logEvent (env_with unreachable) ?entry ?s)
        = Obj (spread ?entry [(''timestamp'', Str (now_iso (env_with unreachable) (ticks ?s)))])
          # take 499 (logs ?s)"
    using logEvent_keeps_500 [of "env_with unreachable" ?entry ?s] by blast
  then show ?thesis
    unfolding t by (simp add: spread_def set_prop_def insert_prop_append is_index_def is_digit_def)
qed

section \<open>Properties of the execute handler\<close>

lemma request_calls:
  "request env spec s = (r, s') \<Longrightarrow>
   s' = s\<lparr>calls := calls s @ [(get_prop spec ''url'', request_opts env spec)],
           ticks := Suc (ticks s)\<rparr>"
  by (auto simp: request_def do_fetch_def Let_def split: sum.splits if_splits)

lemma request_rejected:
  "fetch env (length (calls s)) (get_prop spec ''url'') (request_opts env spec) = Inl e \<Longrightarrow>
   fst (request env spec s) = Inl (rethrow (thrown e))"
  by (simp add: request_def do_fetch_def)

lemma request_not_ok:
  assumes "fetch env (length (calls s)) (get_prop spec ''url'') (request_opts env spec) = Inr res"
    and "\<not> ok res"
  shows "\<exists>e. fst (request env spec s) = Inl e"
  using assms by (auto simp: request_def do_fetch_def Let_def split: sum.splits)

lemma logEvent_frame:
  "calls (logEvent env entry s) = calls s"
  "connections (logEvent env entry s) = connections s"
  by (simp_all add: logEvent_def date_iso_def Let_def)

lemma execute_records_append:
  "execute_records env conn i results (xs @ ys) s =
     (case execute_records env conn i results xs s of
        (Inl e, s1) \<Rightarrow> (Inl e, s1)
      | (Inr results1, s1) \<Rightarrow> execute_records env conn i results1 ys s1)"
  by (induction xs arbitrary: results s) (auto split: sum.splits prod.splits)

lemma execute_records_done:
  "execute_records env conn i results records s = (Inr results', s') \<Longrightarrow>
   length results' = length results + length records
   \<and> length (calls s') = length (calls s) + length records
   \<and> connections s' = connections s"
proof (induction records arbitrary: results s)
  case Nil
  then show ?case
    by simp
next
  case (Cons x xs)
  from Cons.prems obtain mapped out s1 where
    req: "request env (Obj [(''url'', get_prop (Obj conn) ''destinationUrl''),
                            (''method'', or_else (get_prop (Obj conn) ''method'') (Str ''POST'')),
                            (''data'', mapped)]) s = (Inr out, s1)"
    and rest: "execute_records env conn i
                 (results @ [Obj [(''input'', x), (''mapped'', mapped),
                                  (''responseStatus'', get_prop out ''status''),
                                  (''responseBody'', get_prop out ''body'')]])
                 xs
                 (logEvent env (Obj [(''event'', Str ''execute''), (''connectionId'', i),
                                     (''status'', get_prop out ''status''), (''mapped'', mapped)]) s1)
               = (Inr results', s')"
    by (auto split: sum.splits prod.splits)
  from request_calls [OF req] have s1: "length (calls s1) = Suc (length (calls s))" "connections s1 = connections s"
    by simp_all
  from Cons.IH [OF rest] s1 show ?case
    by (simp add: logEvent_frame)
qed

text \<open>
  C1, as the code has it. The loop over the records has no \<open>try\<close> of its own. Take a
  valid batch whose records before \<open>r\<close> are all posted, and let the request for \<open>r\<close> fail
  with the error \<open>e\<close>. Then the handler answers 500 with the message of \<open>e\<close> as its only
  content: there is no result per record, not for the records posted before either. One
  request was issued for each record up to and including \<open>r\<close> and none for the records
  after it. The log entries written for the earlier records stay, and the connections
  are untouched. The failure does not leave the handler: every throw of the loop ends in
  the \<open>catch\<close> of the handler, which is why the handler always returns a reply.
\<close>

theorem handler_aborts_at_first_failure:
  assumes "or_else (in_method req) (Str ''GET'') = Str ''POST''"
    and "getConnection (in_id req) s = Some conn"
    and "in_body req = Inr body"
    and "validateExecutePayload (Obj (set_prop ''connectionId'' (in_id req) (spread body []))) = []"
    and "get_prop body ''records'' = Arr (before @ r # after)"
    and "execute_records env conn (in_id req) [] before s = (Inr results, s1)"
    and "transform (call env) r (or_else (get_prop (Obj conn) ''mappings'') (Obj [])) = Inr mapped"
    and "request env (Obj [(''url'', get_prop (Obj conn) ''destinationUrl''),
                           (''method'', or_else (get_prop (Obj conn) ''method'') (Str ''POST'')),
                           (''data'', mapped)]) s1 = (Inl e, s2)"
  shows "handler env req s = (json_reply env 500 (Obj [(''error'', Str (message e))]), s2)
         \<and> length (calls s2) = length (calls s) + length before + 1
         \<and> length results = length before
         \<and> logs s2 = logs s1
         \<and> connections s2 = connections s"
proof -
  have loop: "execute_records env conn (in_id req) [] (before @ r # after) s = (Inl e, s2)"
    by (simp add: execute_records_append assms(6,7,8))
  have run: "handler env req s = (json_reply env 500 (Obj [(''error'', Str (message e))]), s2)"
    by (simp add: handler_def assms(1-5) loop)
  from execute_records_done [OF assms(6)]
  have b: "length results = length before" "length (calls s1) = length (calls s) + length before"
    "connections s1 = connections s"
    by simp_all
  from request_calls [OF assms(8)]
  have c: "length (calls s2) = Suc (length (calls s1))" "logs s2 = logs s1" "connections s2 = connections s1"
    by simp_all
  from run b c show ?thesis
    by simp
qed

theorem handler_aborts_at_first_failure_witness:
  "fst (handler (env_with second_fails)
          (post_records [Obj [(''n'', Num 1)], Obj [(''n'', Num 2)], Obj [(''n'', Num 3)]]) two_connections)
     = \<lparr>statusCode = 500, headers = [(''Content-Type'', ''application/json'')],
        sent = Obj [(''error'', Str ''HTTP 500 Internal Server Error'')]\<rparr>
   \<and> length (calls (snd (handler (env_with second_fails)
          (post_records [Obj [(''n'', Num 1)], Obj [(''n'', Num 2)], Obj [(''n'', Num 3)]]) two_connections)))
     = 2"
proof -
  let ?env = "env_with second_fails"
  let ?r1 = "Obj [(''n'', Num 1)]"
  let ?r2 = "Obj [(''n'', Num 2)]"
  let ?r3 = "Obj [(''n'', Num 3)]"
  let ?req = "post_records [?r1, ?r2, ?r3]"
  let ?conn = "[(''id'', Str ''c1''), (''name'', Str ''first''), (''destinationUrl'', Str ''http://d1'')]"
  let ?body = "Obj [(''records'', Arr [?r1, ?r2, ?r3])]"
  let ?spec = "Obj [(''url'', get_prop (Obj ?conn) ''destinationUrl''),
                    (''method'', or_else (get_prop (Obj ?conn) ''method'') (Str ''POST'')),
                    (''data'', ?r2)]"
  let ?e = "Error ''Error'' ''HTTP 500 Internal Server Error'' (Some 500) (Obj [(''received'', Bool True)])"
  define results where
    "results = [Obj [(''input'', ?r1), (''mapped'', ?r1), (''responseStatus'', Num 200),
                     (''responseBody'', Obj [(''received'', Bool True)])]]"
  define s1 where "s1 = snd (execute_records ?env ?conn (Str ''c1'') [] [?r1] two_connections)"
  define s2 where "s2 = snd (request ?env ?spec s1)"
  have h1: "or_else (in_method ?req) (Str ''GET'') = Str ''POST''"
    by (simp add: post_records_def or_else_def)
  have h2: "getConnection (in_id ?req) two_connections = Some ?conn"
    by (simp add: post_records_def getConnection_def two_connections_def)
  have h3: "in_body ?req = Inr ?body"
    by (simp add: post_records_def)
  have h4: "validateExecutePayload (Obj (set_prop ''connectionId'' (in_id ?req) (spread ?body []))) = []"
    by code_simp
  have h5: "get_prop ?body ''records'' = Arr ([?r1] @ ?r2 # [?r3])"
    by (simp add: get_prop_def)
  have "fst (execute_records ?env ?conn (Str ''c1'') [] [?r1] two_connections) = Inr results"
    unfolding results_def by code_simp
  then have h6: "execute_records ?env ?conn (in_id ?req) [] [?r1] two_connections = (Inr results, s1)"
    by (simp add: s1_def post_records_def prod_eq_iff)
  have h7: "transform (call ?env) ?r2 (or_else (get_prop (Obj ?conn) ''mappings'') (Obj [])) = Inr ?r2"
    by code_simp
  have "fst (request ?env ?spec s1) = Inl ?e"
    unfolding s1_def by code_simp
  then have h8: "request ?env ?spec s1 = (Inl ?e, s2)"
    by (simp add: s2_def prod_eq_iff)
  from handler_aborts_at_first_failure [OF h1 h2 h3 h4 h5 h6 h7 h8]
  have "handler ?env ?req two_connections = (json_reply ?env 500 (Obj [(''error'', Str (message ?e))]), s2)"
    and "length (calls s2) = length (calls two_connections) + length [?r1] + 1"
    by simp_all
  then show ?thesis
    by (simp add: json_reply_def env_with_def two_connections_def)
qed

text \<open>Two records against a destination that answers 500 to every request: the reply
  carries one error and no result, and only the request for the first record is
  issued.\<close>

theorem handler_per_record_capture_counterexample:
  "handler (env_with always_500) (post_records [Obj [(''n'', Num 1)], Obj [(''n'', Num 2)]]) two_connections
   = (\<lparr>statusCode = 500, headers = [(''Content-Type'', ''application/json'')],
        sent = Obj [(''error'', Str ''HTTP 500 Internal Server Error'')]\<rparr>,
      two_connections\<lparr>calls :=
        [(Str ''http://d1'',
          Obj [(''method'', Str ''POST''),
               (''headers'', Obj [(''Content-Type'', Str ''application/json'')]),
               (''body'', Obj [(''n'', Num 1)])])],
        ticks := 1\<rparr>)"
  by code_simp

section \<open>Properties of the SQL-backed execute route\<close>

text \<open>When the source answers with a status that is not ok, the route logs a failed
  execution and returns before the statement that updates the statistics: the rows of
  the connections are what they were.\<close>

lemma execute_route_source_not_ok:
  assumes "find (\<lambda>r. conn_id r = i) (conn_rows s) = Some c"
    and "fetch env (length (calls s)) (Str (source_url c))
           (Obj [(''method'', Str (source_method c)),
                 (''headers'', or_else (source_headers c) (Obj []))]) = Inr res"
    and "\<not> ok res"
  shows "conn_rows (snd (execute_route env i s)) = conn_rows s"
    and "statusCode (fst (execute_route env i s)) = 500"
    and "map success (execution_logs (snd (execute_route env i s))) = map success (execution_logs s) @ [False]"
  using assms
  by (simp_all add: execute_route_def source_failed_def do_fetch_def date_now_def date_iso_def
        error_reply_def express_json_def Let_def split: prod.splits)

text \<open>
  C2 at a source that answers 500. The execution of connection \<open>c1\<close> fails and is logged
  as a failed execution, but the statistics of the connection are not touched: its
  \<open>execution_count\<close> and \<open>error_count\<close> stay 0 and \<open>last_executed\<close> stays empty. The same
  route does count a failure of the destination: when the source answers 200 and the
  destination 500, \<open>execution_count\<close> and \<open>error_count\<close> become 1, \<open>success_count\<close> stays 0
  and \<open>last_executed\<close> is set.
\<close>

theorem execute_route_source_failure_not_counted:
  "statusCode (fst (execute_route (env_with always_500) ''c1'' one_row)) = 500
   \<and> map success (execution_logs (snd (execute_route (env_with always_500) ''c1'' one_row))) = [False]
   \<and> map (\<lambda>r. (execution_count r, success_count r, error_count r, last_executed r))
        (conn_rows (snd (execute_route (env_with always_500) ''c1'' one_row)))
      = [(0, 0, 0, None)]
   \<and> map (\<lambda>r. (execution_count r, success_count r, error_count r, last_executed r))
        (conn_rows (snd (execute_route (env_with second_fails) ''c1'' one_row)))
      = [(1, 0, 1, Some ''T5'')]"
  by code_simp

end
